theory Spec2Isabelle
  imports Main "HOL-Library.Sublist" "HOL-Library.AList"
begin

section \<open>JavaScript strings\<close>

text \<open>
  A string of \<^verbatim>\<open>server.js\<close> is modelled as a \<^typ>\<open>string\<close>: a list of code units,
  each below 256 (the Latin-1 range of UTF-16). \<^term>\<open>length\<close> is the string's
  \<^verbatim>\<open>.length\<close>. The built-in string methods the handlers call are written out below
  for that range.
\<close>

text \<open>
  \<^verbatim>\<open>String.prototype.toLowerCase\<close>: on code units below 256 it maps \<^verbatim>\<open>A-Z\<close> and the
  upper-case letters U+00C0..U+00DE (U+00D7, the multiplication sign, apart) to the
  letter 32 places further, and leaves every other unit alone.
\<close>

definition toLowerCase_char :: "char \<Rightarrow> char" where
  "toLowerCase_char c =
     (let n = (of_char c :: nat)
      in if (65 \<le> n \<and> n \<le> 90) \<or> (192 \<le> n \<and> n \<le> 222 \<and> n \<noteq> 215)
         then char_of (n + 32) else c)"

definition toLowerCase :: "string \<Rightarrow> string" where
  "toLowerCase s = map toLowerCase_char s"

text \<open>\<^verbatim>\<open>s.includes(t)\<close>: \<open>t\<close> occurs in \<open>s\<close> as a contiguous run of code units.\<close>

definition includes_str :: "string \<Rightarrow> string \<Rightarrow> bool" where
  "includes_str s t = sublist t s"

text \<open>
  \<^verbatim>\<open>s.indexOf(t)\<close>: the least position at which \<open>t\<close> starts in \<open>s\<close>; \<open>None\<close> stands
  for the result \<^verbatim>\<open>-1\<close>.
\<close>

fun indexOf :: "string \<Rightarrow> string \<Rightarrow> nat option" where
  "indexOf [] t = (if t = [] then Some 0 else None)"
| "indexOf (c # cs) t =
     (if prefix t (c # cs) then Some 0 else map_option Suc (indexOf cs t))"

lemma indexOf_bound: "indexOf s t = Some i \<Longrightarrow> i + length t \<le> length s"
proof (induction s arbitrary: i)
  case Nil
  then show ?case by (simp split: if_splits)
next
  case (Cons c cs)
  show ?case
  proof (cases "prefix t (c # cs)")
    case True
    then have "length t \<le> length (c # cs)" by (rule prefix_length_le)
    with True Cons.prems show ?thesis by simp
  next
    case False
    with Cons.prems obtain j where "indexOf cs t = Some j" "i = Suc j" by auto
    with Cons.IH show ?thesis by simp
  qed
qed

text \<open>
  \<^verbatim>\<open>s.split(sep)\<close> with a string separator: the pieces of \<open>s\<close> between successive
  occurrences of \<open>sep\<close>, found from the left, each search starting behind the previous
  occurrence; the empty separator cuts between all code units.
\<close>

function split :: "string \<Rightarrow> string \<Rightarrow> string list" where
  "split sep s =
     (if sep = [] then map (\<lambda>c. [c]) s
      else case indexOf s sep of
             None \<Rightarrow> [s]
           | Some i \<Rightarrow> take i s # split sep (drop (i + length sep) s))"
  by pat_completeness auto
termination
proof (relation "measure (\<lambda>(sep, s). length s)")
  show "wf (measure (\<lambda>(sep, s). length s))" by simp
next
  fix sep s :: string and i :: nat
  assume "sep \<noteq> []" and "indexOf s sep = Some i"
  then have "i + length sep \<le> length s" and "length sep \<noteq> 0"
    by (simp_all add: indexOf_bound)
  then have "length s - (i + length sep) < length s" by arith
  then show "((sep, drop (i + length sep) s), (sep, s)) \<in> measure (\<lambda>(sep, s). length s)"
    by simp
qed

declare split.simps [simp del]

text \<open>\<^verbatim>\<open>lines.join('\n')\<close> on an array of strings.\<close>

fun join :: "string list \<Rightarrow> string" where
  "join [] = []"
| "join [l] = l"
| "join (l # m # ls) = l @ CHR 0x0A # join (m # ls)"

text \<open>
  \<^verbatim>\<open>String.prototype.trim\<close> strips white space and line terminators from both ends;
  below 256 these are TAB, LF, VT, FF, CR, SPACE and NBSP.
\<close>

definition isSpace :: "char \<Rightarrow> bool" where
  "isSpace c = (c \<in> set [CHR 0x09, CHR 0x0A, CHR 0x0B, CHR 0x0C, CHR 0x0D, CHR 0x20, CHR 0xA0])"

definition trim :: "string \<Rightarrow> string" where
  "trim s = rev (dropWhile isSpace (rev (dropWhile isSpace s)))"

text \<open>A string in a condition is truthy unless it is empty.\<close>

definition truthy_str :: "string \<Rightarrow> bool" where
  "truthy_str s = (s \<noteq> [])"

section \<open>Paper segmenter (\<^verbatim>\<open>/generate-paper\<close>, lines 79 to 103)\<close>

definition PAPER_SECTIONS :: "string list" where
  "PAPER_SECTIONS =
     [''Abstract'', ''Introduction'', ''Literature Review'', ''Methodology'',
      ''Results'', ''Discussion'', ''Conclusion'', ''References'']"

text \<open>The test that \<^verbatim>\<open>PAPER_SECTIONS.find\<close> applies to a line and a title.\<close>

definition titleTest :: "string \<Rightarrow> string \<Rightarrow> bool" where
  "titleTest line title =
     (includes_str (toLowerCase line) (toLowerCase title) \<and> length line < length title + 10)"

text \<open>\<^verbatim>\<open>Array.prototype.find\<close> is \<^const>\<open>List.find\<close>; \<open>None\<close> stands for \<^verbatim>\<open>undefined\<close>.\<close>

definition sectionMatch :: "string \<Rightarrow> string option" where
  "sectionMatch line = List.find (titleTest line) PAPER_SECTIONS"

text \<open>
  The mutable variables of the loop. \<open>sections\<close> is the result object: its keys are
  kept in the order in which they were first assigned, and assigning to a key that
  exists replaces the value in place, which is what \<^const>\<open>AList.update\<close> does.
\<close>

record seg_state =
  sections :: "(string \<times> string) list"
  currentSection :: string
  currentContent :: "string list"

text \<open>
  \<^verbatim>\<open>if (currentSection) sections[currentSection] = currentContent.join('\n').trim()\<close>,
  which the source has twice (lines 91 to 93 and 101 to 103).
\<close>

definition flush :: "seg_state \<Rightarrow> (string \<times> string) list" where
  "flush st =
     (if truthy_str (currentSection st)
      then AList.update (currentSection st) (trim (join (currentContent st))) (sections st)
      else sections st)"

text \<open>The callback of \<^verbatim>\<open>forEach\<close> for one line.\<close>

definition segment_line :: "seg_state \<Rightarrow> string \<Rightarrow> seg_state" where
  "segment_line st line =
     (case sectionMatch line of
        Some title \<Rightarrow>
          if truthy_str title
          then \<lparr>sections = flush st, currentSection = title, currentContent = []\<rparr>
          else if truthy_str (currentSection st)
               then st\<lparr>currentContent := currentContent st @ [line]\<rparr> else st
      | None \<Rightarrow>
          if truthy_str (currentSection st)
          then st\<lparr>currentContent := currentContent st @ [line]\<rparr> else st)"

definition seg_init :: seg_state where
  "seg_init = \<lparr>sections = [], currentSection = [], currentContent = []\<rparr>"

definition segment_lines :: "string list \<Rightarrow> (string \<times> string) list" where
  "segment_lines ls = flush (foldl segment_line seg_init ls)"

definition segmentPaper :: "string \<Rightarrow> (string \<times> string) list" where
  "segmentPaper content = segment_lines (split [CHR 0x0A] content)"

section \<open>Citation extractor (\<^verbatim>\<open>/fetch-citations\<close>, lines 132 to 144)\<close>

text \<open>
  Reading an array at an index gives \<^verbatim>\<open>undefined\<close> outside its bounds (\<open>None\<close> here);
  calling a method on \<^verbatim>\<open>undefined\<close> without \<^verbatim>\<open>?.\<close> throws a \<^verbatim>\<open>TypeError\<close>.
\<close>

datatype js_error = TypeError | RequestFailed

record citation =
  citation_text :: string
  type :: string
  year :: string
  authors :: string
  title :: string

text \<open>The digit class of a regular expression: the ten ASCII digits.\<close>

definition isDigit :: "char \<Rightarrow> bool" where
  "isDigit c = (let n = (of_char c :: nat) in 48 \<le> n \<and> n \<le> 57)"

text \<open>
  \<^verbatim>\<open>citation.match\<close> with the pattern of line 136, which asks for an opening parenthesis,
  exactly four digits and a closing parenthesis in a row. The search tries the start
  positions from the left; the result is the first capture group (the four digits) of
  the leftmost match, \<open>None\<close> when the match is \<^verbatim>\<open>null\<close>.
\<close>

fun yearMatch :: "string \<Rightarrow> string option" where
  "yearMatch [] = None"
| "yearMatch (c # cs) =
     (if c = CHR ''('' \<and> 5 \<le> length cs \<and> list_all isDigit (take 4 cs) \<and> cs ! 4 = CHR '')''
      then Some (take 4 cs) else yearMatch cs)"

definition at :: "'a list \<Rightarrow> nat \<Rightarrow> 'a option" where
  "at xs i = (if i < length xs then Some (xs ! i) else None)"

text \<open>The callback of \<^verbatim>\<open>map\<close> for one line.\<close>

definition extractCitation :: "string \<Rightarrow> js_error + citation" where
  "extractCitation citation =
     (case at (split ''('' citation) 0 of
        None \<Rightarrow> Inl TypeError
      | Some a \<Rightarrow>
          Inr \<lparr>citation_text = citation,
               type = ''article'',
               year = (case yearMatch citation of Some y \<Rightarrow> y | None \<Rightarrow> []),
               authors = trim a,
               title =
                 (case at (split '').'' citation) 1 of
                    None \<Rightarrow> []
                  | Some seg \<Rightarrow>
                      (case at (split ''.'' seg) 0 of
                         None \<Rightarrow> []
                       | Some t \<Rightarrow> if truthy_str (trim t) then trim t else []))\<rparr>)"

text \<open>\<^verbatim>\<open>map\<close> with a callback that may throw: the first exception ends the loop.\<close>

fun map_result :: "('a \<Rightarrow> js_error + 'b) \<Rightarrow> 'a list \<Rightarrow> js_error + 'b list" where
  "map_result f [] = Inr []"
| "map_result f (x # xs) =
     (case f x of
        Inl e \<Rightarrow> Inl e
      | Inr y \<Rightarrow> (case map_result f xs of Inl e \<Rightarrow> Inl e | Inr ys \<Rightarrow> Inr (y # ys)))"

definition extractCitations :: "string \<Rightarrow> js_error + citation list" where
  "extractCitations content =
     map_result extractCitation
       (filter (\<lambda>citation. truthy_str (trim citation)) (split [CHR 0x0A] content))"

section \<open>Request handlers\<close>

text \<open>
  The value of a field of the JSON request body, as far as the handlers look at it:
  absent (\<^verbatim>\<open>undefined\<close> after destructuring), \<^verbatim>\<open>null\<close>, a boolean or a string. Numbers,
  arrays and objects are left out of the model. \<^verbatim>\<open>req.body\<close> itself is the object that
  \<^verbatim>\<open>express.json()\<close> parsed.
\<close>

datatype jsval = Undefined | Null | Bool bool | Str string

text \<open>The truth value of a field in a condition (\<^verbatim>\<open>!topic\<close>, \<^verbatim>\<open>a || b\<close>, \<^verbatim>\<open>c ? x : y\<close>).\<close>

fun truthy :: "jsval \<Rightarrow> bool" where
  "truthy Undefined = False"
| "truthy Null = False"
| "truthy (Bool b) = b"
| "truthy (Str s) = (s \<noteq> [])"

text \<open>The string a value contributes to a template literal.\<close>

fun toString :: "jsval \<Rightarrow> string" where
  "toString Undefined = ''undefined''"
| "toString Null = ''null''"
| "toString (Bool b) = (if b then ''true'' else ''false'')"
| "toString (Str s) = s"

text \<open>\<^verbatim>\<open>a || b\<close>.\<close>

definition or_js :: "jsval \<Rightarrow> jsval \<Rightarrow> jsval" where
  "or_js a b = (if truthy a then a else b)"

subsection \<open>Completion gateway (lines 25 to 50)\<close>

text \<open>
  \<^verbatim>\<open>create\<close> turns the chat messages into the provider's \<^verbatim>\<open>contents\<close>, posts them once and
  reads \<^verbatim>\<open>candidates[0].content.parts[0].text\<close> from the answer. The provider is a
  parameter: a function from the posted contents to either a failure of the request or
  the candidates of the answer, each candidate being the texts of its parts. The second
  component of the result lists the contents posted, so that a handler that never calls
  the provider returns the empty list there. The value returned is the \<^verbatim>\<open>content\<close> that
  the handlers read back through \<^verbatim>\<open>response.choices[0].message.content\<close>.
\<close>

record message =
  role :: string
  content :: string

record gemini_content =
  content_role :: string
  parts :: "string list"

type_synonym provider = "gemini_content list \<Rightarrow> js_error + string list list"

definition to_contents :: "message list \<Rightarrow> gemini_content list" where
  "to_contents messages =
     map (\<lambda>msg. \<lparr>content_role = (if role msg = ''system'' then ''user'' else role msg),
                 parts = [content msg]\<rparr>) messages"

definition create :: "provider \<Rightarrow> message list \<Rightarrow> (js_error + string) \<times> gemini_content list list" where
  "create post messages =
     (let contents = to_contents messages
      in (case post contents of
            Inl e \<Rightarrow> Inl e
          | Inr candidates \<Rightarrow>
              (case at candidates 0 of
                 None \<Rightarrow> Inl TypeError
               | Some candidate \<Rightarrow>
                   (case at candidate 0 of None \<Rightarrow> Inl TypeError | Some t \<Rightarrow> Inr t)),
          [contents]))"

subsection \<open>Responses\<close>

text \<open>
  A response is a status code and a JSON body; \<^verbatim>\<open>res.json\<close> without \<^verbatim>\<open>res.status\<close> answers
  with 200. An exception anywhere in a handler is caught and answered with 500.
\<close>

datatype response_body =
  ErrorJson string
| PaperJson bool "(string \<times> string) list"
| CitationsJson "citation list"
| ImprovedJson string "jsval list"

record response =
  status :: nat
  body :: response_body

subsection \<open>\<^verbatim>\<open>POST /generate-paper\<close> (lines 58 to 110)\<close>

record topic_body =
  topic :: jsval

definition generate_messages :: "jsval \<Rightarrow> message list" where
  "generate_messages t =
     [\<lparr>role = ''system'',
       content = ''You are an expert academic writer. Generate a complete research paper with the following sections: Abstract, Introduction, Literature Review, Methodology, Results, Discussion, Conclusion, and References. Use formal academic language and maintain coherence between sections.''\<rparr>,
      \<lparr>role = ''user'',
       content = ''Generate a complete research paper about: '' @ toString t @ ''. Include all sections.''\<rparr>]"

definition generate_paper :: "provider \<Rightarrow> topic_body \<Rightarrow> response \<times> gemini_content list list" where
  "generate_paper post req =
     (if \<not> truthy (topic req)
      then (\<lparr>status = 400, body = ErrorJson ''Topic is required''\<rparr>, [])
      else (case create post (generate_messages (topic req)) of
              (Inl e, sent) \<Rightarrow> (\<lparr>status = 500, body = ErrorJson ''Failed to generate paper''\<rparr>, sent)
            | (Inr generated, sent) \<Rightarrow>
                (\<lparr>status = 200, body = PaperJson True (segmentPaper generated)\<rparr>, sent)))"

subsection \<open>\<^verbatim>\<open>POST /fetch-citations\<close> (lines 113 to 151)\<close>

definition citation_messages :: "jsval \<Rightarrow> message list" where
  "citation_messages t =
     [\<lparr>role = ''system'',
       content = ''You are a research librarian. Generate accurate and relevant academic citations for the given topic. Include full citation details and ensure proper academic formatting.''\<rparr>,
      \<lparr>role = ''user'',
       content = ''Generate 10 relevant academic citations for research on: '' @ toString t\<rparr>]"

definition fetch_citations :: "provider \<Rightarrow> topic_body \<Rightarrow> response \<times> gemini_content list list" where
  "fetch_citations post req =
     (case create post (citation_messages (topic req)) of
        (Inl e, sent) \<Rightarrow> (\<lparr>status = 500, body = ErrorJson ''Failed to fetch citations''\<rparr>, sent)
      | (Inr generated, sent) \<Rightarrow>
          (case extractCitations generated of
             Inl e \<Rightarrow> (\<lparr>status = 500, body = ErrorJson ''Failed to fetch citations''\<rparr>, sent)
           | Inr citations \<Rightarrow> (\<lparr>status = 200, body = CitationsJson citations\<rparr>, sent)))"

subsection \<open>\<^verbatim>\<open>POST /api/ai/improve-writing\<close> (lines 182 to 215)\<close>

text \<open>
  \<open>body_text\<close> is the field \<^verbatim>\<open>text\<close> of the body and \<open>body_context\<close> its field \<^verbatim>\<open>context\<close>.
  A context that is absent, or that is no object, has none of the three properties read
  from it: it is \<open>None\<close> here.
\<close>

record paper_context =
  sectionTitle :: jsval
  paperTitle :: jsval
  abstract :: jsval

record improve_body =
  prompt :: jsval
  body_text :: jsval
  aspect :: jsval
  body_context :: "paper_context option"

text \<open>\<^verbatim>\<open>context || {}\<close>, destructured.\<close>

definition context_or_empty :: "paper_context option \<Rightarrow> paper_context" where
  "context_or_empty c =
     (case c of
        Some c \<Rightarrow> c
      | None \<Rightarrow> \<lparr>sectionTitle = Undefined, paperTitle = Undefined, abstract = Undefined\<rparr>)"

definition systemPrompt :: "paper_context \<Rightarrow> string" where
  "systemPrompt c =
     ''You are an expert academic writer working on '' @
     (if truthy (paperTitle c)
      then ''a paper titled '' @ [CHR 0x22] @ toString (paperTitle c) @ [CHR 0x22]
      else ''a research paper'') @ ''.'' @ [CHR 0x0A] @
     (if truthy (abstract c)
      then ''The paper's abstract: '' @ [CHR 0x22] @ toString (abstract c) @ [CHR 0x22]
      else []) @ [CHR 0x0A] @
     (if truthy (sectionTitle c) then ''Currently working on: '' @ toString (sectionTitle c) else [])"

definition improve_messages :: "paper_context \<Rightarrow> jsval \<Rightarrow> message list" where
  "improve_messages c contentToImprove =
     [\<lparr>role = ''system'', content = systemPrompt c\<rparr>,
      \<lparr>role = ''user'',
       content = ''Improve this academic writing:'' @ [CHR 0x0A, CHR 0x0A] @ toString contentToImprove\<rparr>]"

definition improve_writing :: "provider \<Rightarrow> improve_body \<Rightarrow> response \<times> gemini_content list list" where
  "improve_writing post req =
     (let contentToImprove = or_js (prompt req) (body_text req)
      in if \<not> truthy contentToImprove \<or> \<not> truthy (aspect req)
         then (\<lparr>status = 400,
                body = ErrorJson ''Content to improve and writing aspect are required''\<rparr>, [])
         else let c = context_or_empty (body_context req)
              in (case create post (improve_messages c contentToImprove) of
                    (Inl e, sent) \<Rightarrow>
                      (\<lparr>status = 500, body = ErrorJson ''Failed to improve writing''\<rparr>, sent)
                  | (Inr improvedText, sent) \<Rightarrow>
                      (\<lparr>status = 200, body = ImprovedJson improvedText [aspect req]\<rparr>, sent)))"

section \<open>The specification's wording\<close>

subsection \<open>The heading test in the specification's words\<close>

text \<open>
  A line contains a title as a case-insensitive substring when some contiguous piece
  of the line equals the title once both are put in lower case.
\<close>

definition ci_substring :: "string \<Rightarrow> string \<Rightarrow> bool" where
  "ci_substring ttl line =
     (\<exists>piece \<in> set (sublists line). toLowerCase piece = toLowerCase ttl)"

definition heading_for :: "string \<Rightarrow> string \<Rightarrow> bool" where
  "heading_for line ttl = (ci_substring ttl line \<and> length line < length ttl + 10)"

subsection \<open>The fields in the specification's words\<close>

text \<open>
  The part of a string before the first occurrence of a separator (the whole string when
  the separator does not occur), and the part behind that occurrence.
\<close>

definition before_first :: "string \<Rightarrow> string \<Rightarrow> string" where
  "before_first sep s = (case indexOf s sep of None \<Rightarrow> s | Some i \<Rightarrow> take i s)"

definition after_first :: "string \<Rightarrow> string \<Rightarrow> string option" where
  "after_first sep s =
     (case indexOf s sep of None \<Rightarrow> None | Some i \<Rightarrow> Some (drop (i + length sep) s))"

text \<open>
  The first parenthesised four-digit sequence: the least position holding an opening
  parenthesis, four digits and a closing parenthesis.
\<close>

definition year_at :: "string \<Rightarrow> nat \<Rightarrow> bool" where
  "year_at s i =
     (i + 6 \<le> length s \<and> s ! i = CHR ''('' \<and> list_all isDigit (take 4 (drop (Suc i) s)) \<and>
      s ! (i + 5) = CHR '')'')"

definition first_year :: "string \<Rightarrow> string" where
  "first_year s =
     (case List.find (year_at s) [0..<length s] of
        None \<Rightarrow> []
      | Some i \<Rightarrow> take 4 (drop (Suc i) s))"

text \<open>
  The title as the specification words it: the text after the first \<^verbatim>\<open>).\<close> and before
  the next \<^verbatim>\<open>.\<close>, trimmed; empty when either delimiter is absent.
\<close>

definition spec_title :: "string \<Rightarrow> string" where
  "spec_title line =
     (case after_first '').'' line of
        None \<Rightarrow> []
      | Some r \<Rightarrow> (case indexOf r ''.'' of None \<Rightarrow> [] | Some j \<Rightarrow> trim (take j r)))"

text \<open>
  The title as the code computes it: the text after the first \<^verbatim>\<open>).\<close>, cut at the next
  \<^verbatim>\<open>).\<close> and then at the next \<^verbatim>\<open>.\<close>, each only if it occurs, and trimmed; empty when the
  line has no \<^verbatim>\<open>).\<close>.
\<close>

definition amended_title :: "string \<Rightarrow> string" where
  "amended_title line =
     (case after_first '').'' line of
        None \<Rightarrow> []
      | Some r \<Rightarrow> trim (before_first ''.'' (before_first '').'' r)))"

section \<open>Invariant of the segmentation loop\<close>

text \<open>
  After the lines \<open>seen\<close>, every key of the result object, and the current section when
  one is active, is the title matched by one of these lines.
\<close>

definition keys_ok :: "string list \<Rightarrow> seg_state \<Rightarrow> bool" where
  "keys_ok seen st =
     ((\<forall>p \<in> set (sections st). Some (fst p) \<in> sectionMatch ` set seen) \<and>
      (truthy_str (currentSection st) \<longrightarrow> Some (currentSection st) \<in> sectionMatch ` set seen))"

section \<open>Properties of the segmenter\<close>

lemma sublist_map_iff:
  "sublist ys (map f xs) \<longleftrightarrow> (\<exists>zs. sublist zs xs \<and> map f zs = ys)"
proof
  assume "sublist ys (map f xs)"
  then obtain ps ss where "map f xs = ps @ ys @ ss" by (auto simp: sublist_def)
  then obtain a r where a: "xs = a @ r" "ys @ ss = map f r"
    unfolding map_eq_append_conv by blast
  then obtain b c where "r = b @ c" "ys = map f b"
    unfolding append_eq_map_conv by blast
  with a have "xs = a @ b @ c" "map f b = ys" by simp_all
  then show "\<exists>zs. sublist zs xs \<and> map f zs = ys" by (auto simp: sublist_def)
next
  assume "\<exists>zs. sublist zs xs \<and> map f zs = ys"
  then obtain zs ps ss where "xs = ps @ zs @ ss" "map f zs = ys" by (auto simp: sublist_def)
  then have "map f xs = map f ps @ ys @ map f ss" by simp
  then show "sublist ys (map f xs)" unfolding sublist_def by blast
qed

lemma titleTest_heading_for: "titleTest line ttl = heading_for line ttl"
  by (auto simp: titleTest_def heading_for_def ci_substring_def includes_str_def
      toLowerCase_def sublist_map_iff)

lemma titles_truthy: "ttl \<in> set PAPER_SECTIONS \<Longrightarrow> truthy_str ttl"
  by (auto simp: PAPER_SECTIONS_def truthy_str_def)

lemma sectionMatch_Some_title: "sectionMatch line = Some ttl \<Longrightarrow> ttl \<in> set PAPER_SECTIONS"
  unfolding sectionMatch_def by (auto simp: find_Some_iff)

lemma segment_line_heading:
  "sectionMatch line = Some ttl \<Longrightarrow>
   segment_line st line = \<lparr>sections = flush st, currentSection = ttl, currentContent = []\<rparr>"
  using titles_truthy [OF sectionMatch_Some_title] by (simp add: segment_line_def)

lemma segment_line_body:
  "sectionMatch line = None \<Longrightarrow>
   segment_line st line =
     (if truthy_str (currentSection st) then st\<lparr>currentContent := currentContent st @ [line]\<rparr>
      else st)"
  by (simp add: segment_line_def)

subsection \<open>The heading heuristic\<close>

text \<open>
  Claim C1. A line is treated as a heading exactly when some canonical title occurs in it
  as a case-insensitive substring and the line is shorter than that title's length plus
  10. Such a line starts a new section, whatever its formatting: the loop stores the body
  gathered so far, moves the cursor to a canonical title and empties the accumulator. Any
  other line is appended to the accumulator of the active section, or dropped when there
  is none.
\<close>

theorem heading_heuristic:
  "((sectionMatch line \<noteq> None) = (\<exists>ttl \<in> set PAPER_SECTIONS. heading_for line ttl)) \<and>
   (if \<exists>ttl \<in> set PAPER_SECTIONS. heading_for line ttl
    then \<exists>ttl \<in> set PAPER_SECTIONS.
           segment_line st line =
             \<lparr>sections = flush st, currentSection = ttl, currentContent = []\<rparr>
    else segment_line st line =
           (if truthy_str (currentSection st)
            then st\<lparr>currentContent := currentContent st @ [line]\<rparr> else st))"
proof -
  have iff: "(sectionMatch line \<noteq> None) = (\<exists>ttl \<in> set PAPER_SECTIONS. heading_for line ttl)"
    unfolding sectionMatch_def by (auto simp: find_None_iff titleTest_heading_for)
  show ?thesis
  proof (cases "sectionMatch line")
    case None
    with iff segment_line_body [OF None, of st] show ?thesis by simp
  next
    case (Some ttl)
    with iff segment_line_heading [OF Some, of st] sectionMatch_Some_title [OF Some]
    show ?thesis by auto
  qed
qed

theorem heading_heuristic_witness:
  "(\<exists>ttl \<in> set PAPER_SECTIONS. heading_for ''In the results'' ttl) \<and>
   segment_line \<lparr>sections = [], currentSection = ''Abstract'', currentContent = [''Foo'']\<rparr>
      ''In the results'' =
     \<lparr>sections = [(''Abstract'', ''Foo'')], currentSection = ''Results'', currentContent = []\<rparr> \<and>
   \<not> (\<exists>ttl \<in> set PAPER_SECTIONS. heading_for ''In the results we see'' ttl) \<and>
   segment_line \<lparr>sections = [], currentSection = ''Abstract'', currentContent = [''Foo'']\<rparr>
      ''In the results we see'' =
     \<lparr>sections = [], currentSection = ''Abstract'',
      currentContent = [''Foo'', ''In the results we see'']\<rparr>"
proof -
  let ?st = "\<lparr>sections = [], currentSection = ''Abstract'', currentContent = [''Foo'']\<rparr>"
  have "titleTest ''In the results'' ''Results''" by code_simp
  then have h1: "\<exists>ttl \<in> set PAPER_SECTIONS. heading_for ''In the results'' ttl"
    by (auto simp: titleTest_heading_for PAPER_SECTIONS_def)
  have "\<not> (\<exists>ttl \<in> set PAPER_SECTIONS. titleTest ''In the results we see'' ttl)"
    by code_simp
  then have h2: "\<not> (\<exists>ttl \<in> set PAPER_SECTIONS. heading_for ''In the results we see'' ttl)"
    by (simp add: titleTest_heading_for)
  from h1 heading_heuristic [of "''In the results''" ?st]
  obtain ttl where t: "ttl \<in> set PAPER_SECTIONS"
    "segment_line ?st ''In the results'' =
       \<lparr>sections = flush ?st, currentSection = ttl, currentContent = []\<rparr>"
    by auto
  have m: "sectionMatch ''In the results'' = Some ''Results''" by code_simp
  have "currentSection (segment_line ?st ''In the results'') = ''Results''"
    by (simp add: segment_line_heading [OF m])
  with t have "ttl = ''Results''" by simp
  moreover have "flush ?st = [(''Abstract'', ''Foo'')]" by code_simp
  ultimately have r1: "segment_line ?st ''In the results'' =
     \<lparr>sections = [(''Abstract'', ''Foo'')], currentSection = ''Results'', currentContent = []\<rparr>"
    using t by simp
  from h2 heading_heuristic [of "''In the results we see''" ?st]
  have r2: "segment_line ?st ''In the results we see'' =
     \<lparr>sections = [], currentSection = ''Abstract'',
      currentContent = [''Foo'', ''In the results we see'']\<rparr>"
    by (simp add: truthy_str_def)
  from h1 h2 r1 r2 show ?thesis by blast
qed

subsection \<open>Order of the titles\<close>

text \<open>
  Claim C2. When the heading test holds for several canonical titles on one line, the
  section selected is the first of them in the order of \<^const>\<open>PAPER_SECTIONS\<close>: a title
  that passes the test while no title before it in the list does is the one found, and
  it becomes the current section. The order of the titles within the line plays no part.
\<close>

theorem first_title_wins:
  assumes "i < length PAPER_SECTIONS"
    and "heading_for line (PAPER_SECTIONS ! i)"
    and "\<forall>j<i. \<not> heading_for line (PAPER_SECTIONS ! j)"
  shows "sectionMatch line = Some (PAPER_SECTIONS ! i) \<and>
         currentSection (segment_line st line) = PAPER_SECTIONS ! i"
proof -
  have m: "sectionMatch line = Some (PAPER_SECTIONS ! i)"
    unfolding sectionMatch_def find_Some_iff titleTest_heading_for using assms by blast
  then show ?thesis by (simp add: segment_line_heading)
qed

theorem first_title_wins_witness:
  "heading_for ''Results Abstract'' ''Abstract'' \<and> heading_for ''Results Abstract'' ''Results'' \<and>
   indexOf (toLowerCase ''Results Abstract'') (toLowerCase ''Results'') = Some 0 \<and>
   indexOf (toLowerCase ''Results Abstract'') (toLowerCase ''Abstract'') = Some 8 \<and>
   sectionMatch ''Results Abstract'' = Some ''Abstract'' \<and>
   currentSection (segment_line seg_init ''Results Abstract'') = ''Abstract''"
proof -
  have n: "(0::nat) < length PAPER_SECTIONS" and p: "PAPER_SECTIONS ! 0 = ''Abstract''"
    by (simp_all add: PAPER_SECTIONS_def)
  have "titleTest ''Results Abstract'' ''Abstract''" "titleTest ''Results Abstract'' ''Results''"
    by code_simp+
  then have a: "heading_for ''Results Abstract'' (PAPER_SECTIONS ! 0)"
    and r: "heading_for ''Results Abstract'' ''Results''"
    by (simp_all add: titleTest_heading_for p)
  have i: "indexOf (toLowerCase ''Results Abstract'') (toLowerCase ''Results'') = Some 0"
    "indexOf (toLowerCase ''Results Abstract'') (toLowerCase ''Abstract'') = Some 8"
    by code_simp+
  from first_title_wins [OF n a, of seg_init] a r i show ?thesis by (simp add: p)
qed

subsection \<open>Runs of lines\<close>

lemma flush_seg_init: "flush seg_init = []"
  by (simp add: flush_def seg_init_def truthy_str_def)

lemma run_no_section:
  "\<forall>l \<in> set ls. sectionMatch l = None \<Longrightarrow> \<not> truthy_str (currentSection st) \<Longrightarrow>
   foldl segment_line st ls = st"
  by (induction ls arbitrary: st) (simp_all add: segment_line_body)

lemma run_body:
  "\<forall>l \<in> set ls. sectionMatch l = None \<Longrightarrow> truthy_str (currentSection st) \<Longrightarrow>
   foldl segment_line st ls = st\<lparr>currentContent := currentContent st @ ls\<rparr>"
  by (induction ls arbitrary: st) (simp_all add: segment_line_body)

lemma flush_other:
  "currentSection st \<noteq> ttl \<Longrightarrow> map_of (flush st) ttl = map_of (sections st) ttl"
  by (simp add: flush_def update_conv')

lemma run_other:
  "\<forall>l \<in> set ls. sectionMatch l \<noteq> Some ttl \<Longrightarrow> currentSection st \<noteq> ttl \<Longrightarrow>
   map_of (flush (foldl segment_line st ls)) ttl = map_of (sections st) ttl"
proof (induction ls arbitrary: st)
  case Nil
  then show ?case by (simp add: flush_other)
next
  case (Cons l ls)
  show ?case
  proof (cases "sectionMatch l")
    case None
    let ?st' = "segment_line st l"
    from None have "currentSection ?st' = currentSection st" "sections ?st' = sections st"
      by (simp_all add: segment_line_body)
    with Cons.IH [of ?st'] Cons.prems show ?thesis by simp
  next
    case (Some t)
    let ?st' = "segment_line st l"
    from Some have st': "?st' = \<lparr>sections = flush st, currentSection = t, currentContent = []\<rparr>"
      by (rule segment_line_heading)
    from Some Cons.prems have "t \<noteq> ttl" by auto
    with st' Cons.IH [of ?st'] Cons.prems
    have "map_of (flush (foldl segment_line ?st' ls)) ttl = map_of (flush st) ttl"
      by simp
    with Cons.prems show ?thesis by (simp add: flush_other)
  qed
qed

lemma flush_distinct:
  "distinct (map fst (sections st)) \<Longrightarrow> distinct (map fst (flush st))"
  by (simp add: flush_def distinct_update)

lemma segment_line_distinct:
  "distinct (map fst (sections st)) \<Longrightarrow> distinct (map fst (sections (segment_line st l)))"
  by (cases "sectionMatch l")
     (simp_all add: segment_line_body segment_line_heading flush_distinct)

lemma run_distinct:
  "distinct (map fst (sections st)) \<Longrightarrow>
   distinct (map fst (sections (foldl segment_line st ls)))"
  by (induction ls arbitrary: st) (simp_all add: segment_line_distinct)

lemma segment_lines_distinct: "distinct (map fst (segment_lines ls))"
  unfolding segment_lines_def
  by (rule flush_distinct, rule run_distinct) (simp add: seg_init_def)

lemma distinct_single_entry:
  "distinct (map fst al) \<Longrightarrow> map_of al k = Some v \<Longrightarrow> filter (\<lambda>p. fst p = k) al = [(k, v)]"
proof (induction al)
  case Nil
  then show ?case by simp
next
  case (Cons p al)
  show ?case
  proof (cases "fst p = k")
    case True
    with Cons.prems have "p = (k, v)" by (cases p) simp
    moreover from True Cons.prems have "k \<notin> fst ` set al" by auto
    then have "\<forall>q \<in> set al. fst q \<noteq> k" by force
    then have "filter (\<lambda>q. fst q = k) al = []"
      by (simp add: filter_empty_conv)
    ultimately show ?thesis by simp
  next
    case False
    with Cons show ?thesis by (cases p) auto
  qed
qed

lemma segment_lines_last:
  assumes h: "sectionMatch h = Some ttl"
    and bdy: "\<forall>l \<in> set bdy. sectionMatch l = None"
    and nxt: "rest = [] \<or> sectionMatch (hd rest) \<noteq> None"
    and later: "\<forall>l \<in> set rest. sectionMatch l \<noteq> Some ttl"
  shows "map_of (segment_lines (pre @ [h] @ bdy @ rest)) ttl = Some (trim (join bdy))"
proof -
  define st1 where "st1 = foldl segment_line seg_init pre"
  define st2 where "st2 = segment_line st1 h"
  define st3 where "st3 = foldl segment_line st2 bdy"
  have st2: "st2 = \<lparr>sections = flush st1, currentSection = ttl, currentContent = []\<rparr>"
    unfolding st2_def using h by (rule segment_line_heading)
  have tt: "truthy_str ttl"
    using h by (intro titles_truthy sectionMatch_Some_title)
  have st3: "st3 = \<lparr>sections = flush st1, currentSection = ttl, currentContent = bdy\<rparr>"
    unfolding st3_def using run_body [OF bdy, of st2] tt by (simp add: st2)
  have fl: "map_of (flush st3) ttl = Some (trim (join bdy))"
    using tt by (simp add: st3 flush_def update_conv')
  have run: "segment_lines (pre @ [h] @ bdy @ rest) = flush (foldl segment_line st3 rest)"
    by (simp add: segment_lines_def st1_def st2_def st3_def)
  show ?thesis
  proof (cases rest)
    case Nil
    with run fl show ?thesis by simp
  next
    case (Cons h' rest')
    with nxt obtain t' where t': "sectionMatch h' = Some t'" by auto
    with later Cons have ne: "t' \<noteq> ttl" by auto
    let ?st4 = "segment_line st3 h'"
    have st4: "?st4 = \<lparr>sections = flush st3, currentSection = t', currentContent = []\<rparr>"
      using t' by (rule segment_line_heading)
    have "map_of (flush (foldl segment_line ?st4 rest')) ttl = map_of (sections ?st4) ttl"
      using later Cons ne by (intro run_other) (simp_all add: st4)
    with run Cons fl show ?thesis by (simp add: st4)
  qed
qed

subsection \<open>Repeated headings\<close>

text \<open>
  Claim C5. When a canonical title is detected as a heading several times, the returned
  mapping holds that title exactly once, bound to the body gathered after its last
  occurrence: the lines from that heading up to the next heading (or the end of the
  text), joined and trimmed. What was gathered under earlier occurrences is overwritten.
\<close>

theorem last_heading_wins:
  assumes "split [CHR 0x0A] txt = pre @ [h] @ bdy @ rest"
    and "sectionMatch h = Some ttl"
    and "\<forall>l \<in> set bdy. sectionMatch l = None"
    and "rest = [] \<or> sectionMatch (hd rest) \<noteq> None"
    and "\<forall>l \<in> set rest. sectionMatch l \<noteq> Some ttl"
  shows "filter (\<lambda>p. fst p = ttl) (segmentPaper txt) = [(ttl, trim (join bdy))]"
proof -
  have "map_of (segmentPaper txt) ttl = Some (trim (join bdy))"
    unfolding segmentPaper_def assms(1) using assms(2-5) by (rule segment_lines_last)
  moreover have "distinct (map fst (segmentPaper txt))"
    unfolding segmentPaper_def by (rule segment_lines_distinct)
  ultimately show ?thesis by (intro distinct_single_entry)
qed

theorem last_heading_wins_witness:
  "split [CHR 0x0A] ''## Abstract\<newline>Foo\<newline>## Abstract\<newline>Bar\<newline>## Results\<newline>Baz'' =
     [''## Abstract'', ''Foo''] @ [''## Abstract''] @ [''Bar''] @ [''## Results'', ''Baz''] \<and>
   sectionMatch ''## Abstract'' = Some ''Abstract'' \<and>
   sectionMatch ''## Results'' = Some ''Results'' \<and>
   sectionMatch ''Foo'' = None \<and> sectionMatch ''Bar'' = None \<and> sectionMatch ''Baz'' = None \<and>
   filter (\<lambda>p. fst p = ''Abstract'')
     (segmentPaper ''## Abstract\<newline>Foo\<newline>## Abstract\<newline>Bar\<newline>## Results\<newline>Baz'') =
     [(''Abstract'', ''Bar'')]"
proof -
  have s: "split [CHR 0x0A] ''## Abstract\<newline>Foo\<newline>## Abstract\<newline>Bar\<newline>## Results\<newline>Baz'' =
     [''## Abstract'', ''Foo''] @ [''## Abstract''] @ [''Bar''] @ [''## Results'', ''Baz'']"
    by code_simp
  have m: "sectionMatch ''## Abstract'' = Some ''Abstract''"
    and r: "sectionMatch ''## Results'' = Some ''Results''"
    by code_simp+
  have n: "sectionMatch ''Foo'' = None" "sectionMatch ''Bar'' = None" "sectionMatch ''Baz'' = None"
    by code_simp+
  have b: "\<forall>l \<in> set [''Bar'']. sectionMatch l = None" using n by simp
  have x: "[''## Results'', ''Baz''] = [] \<or> sectionMatch (hd [''## Results'', ''Baz'']) \<noteq> None"
    using r by simp
  have l: "\<forall>l \<in> set [''## Results'', ''Baz'']. sectionMatch l \<noteq> Some ''Abstract''"
    using r n by simp
  have t: "trim (join [''Bar'']) = ''Bar''" by code_simp
  from last_heading_wins [OF s m b x l] s m r n t show ?thesis by simp
qed

subsection \<open>Lines before the first heading\<close>

text \<open>
  Claim C6. Lines that stand before the first detected heading contribute to no section
  body: the result is that of the remaining lines alone. In particular a text with no
  heading line at all gives the empty mapping.
\<close>

theorem preamble_dropped:
  assumes "split [CHR 0x0A] txt = pre @ rest"
    and "\<forall>l \<in> set pre. sectionMatch l = None"
  shows "segmentPaper txt = segment_lines rest \<and> (rest = [] \<longrightarrow> segmentPaper txt = [])"
proof -
  have "\<not> truthy_str (currentSection seg_init)"
    by (simp add: seg_init_def truthy_str_def)
  with assms(2) have "foldl segment_line seg_init pre = seg_init"
    by (rule run_no_section)
  then have "segmentPaper txt = segment_lines rest"
    by (simp add: segmentPaper_def segment_lines_def assms(1))
  moreover have "segment_lines [] = []"
    by (simp add: segment_lines_def flush_seg_init)
  ultimately show ?thesis by simp
qed

theorem preamble_dropped_witness:
  "split [CHR 0x0A] ''Dear reader,\<newline>here it is:\<newline>## Abstract\<newline>Foo'' =
     [''Dear reader,'', ''here it is:''] @ [''## Abstract'', ''Foo''] \<and>
   sectionMatch ''Dear reader,'' = None \<and> sectionMatch ''here it is:'' = None \<and>
   segmentPaper ''Dear reader,\<newline>here it is:\<newline>## Abstract\<newline>Foo'' = [(''Abstract'', ''Foo'')] \<and>
   split [CHR 0x0A] ''Dear reader,\<newline>here it is:'' = [''Dear reader,'', ''here it is:''] @ [] \<and>
   segmentPaper ''Dear reader,\<newline>here it is:'' = []"
proof -
  have s1: "split [CHR 0x0A] ''Dear reader,\<newline>here it is:\<newline>## Abstract\<newline>Foo'' =
     [''Dear reader,'', ''here it is:''] @ [''## Abstract'', ''Foo'']"
    by code_simp
  have s2: "split [CHR 0x0A] ''Dear reader,\<newline>here it is:'' =
     [''Dear reader,'', ''here it is:''] @ []"
    by code_simp
  have n: "sectionMatch ''Dear reader,'' = None" "sectionMatch ''here it is:'' = None"
    by code_simp+
  then have p: "\<forall>l \<in> set [''Dear reader,'', ''here it is:'']. sectionMatch l = None"
    by simp
  have r: "segment_lines [''## Abstract'', ''Foo''] = [(''Abstract'', ''Foo'')]"
    by code_simp
  have e: "segmentPaper ''Dear reader,\<newline>here it is:'' = []"
    using preamble_dropped [OF s2 p] by blast
  have "segmentPaper ''Dear reader,\<newline>here it is:\<newline>## Abstract\<newline>Foo'' = [(''Abstract'', ''Foo'')]"
    using preamble_dropped [OF s1 p] r by simp
  with e s1 s2 n show ?thesis by blast
qed

subsection \<open>Stored bodies\<close>

lemma trim_ends:
  assumes "trim s \<noteq> []"
  shows "\<not> isSpace (hd (trim s)) \<and> \<not> isSpace (last (trim s))"
proof -
  define d where "d = dropWhile isSpace s"
  define e where "e = dropWhile isSpace (rev d)"
  have t: "trim s = rev e" by (simp add: trim_def d_def e_def)
  with assms have e: "e \<noteq> []" by simp
  then have "rev d \<noteq> []" by (auto simp: e_def)
  then have d: "d \<noteq> []" by simp
  have "rev d = takeWhile isSpace (rev d) @ e" by (simp add: e_def)
  then have "last (rev d) = last e" using e by (metis last_appendR)
  then have "last e = hd d" by (simp add: last_rev)
  moreover have "\<not> isSpace (hd d)" using d unfolding d_def by (rule hd_dropWhile)
  moreover have "\<not> isSpace (hd e)" using e unfolding e_def by (rule hd_dropWhile)
  ultimately show ?thesis by (simp add: t hd_rev last_rev)
qed

lemma keys_ok_flush:
  assumes "keys_ok seen st" and "p \<in> set (flush st)"
  shows "Some (fst p) \<in> sectionMatch ` set seen"
proof (cases "truthy_str (currentSection st)")
  case False
  with assms show ?thesis by (simp add: flush_def keys_ok_def)
next
  case True
  with assms(2) have "fst p \<in> fst ` set (AList.update (currentSection st)
      (trim (join (currentContent st))) (sections st))"
    by (simp add: flush_def)
  then have "fst p = currentSection st \<or> fst p \<in> fst ` set (sections st)"
    by (simp add: dom_update)
  with assms(1) True show ?thesis by (auto simp: keys_ok_def)
qed

lemma keys_ok_step:
  assumes "keys_ok seen st"
  shows "keys_ok (seen @ [l]) (segment_line st l)"
proof (cases "sectionMatch l")
  case None
  with assms show ?thesis
    by (auto simp: segment_line_body keys_ok_def)
next
  case (Some t)
  have "Some (fst p) \<in> sectionMatch ` set (seen @ [l])" if "p \<in> set (flush st)" for p
    using keys_ok_flush [OF assms that] by auto
  moreover have "Some t \<in> sectionMatch ` set (seen @ [l])"
    using Some by (simp add: image_iff)
  ultimately show ?thesis
    by (simp add: segment_line_heading [OF Some] keys_ok_def)
qed

lemma keys_ok_run:
  "keys_ok seen st \<Longrightarrow> keys_ok (seen @ ls) (foldl segment_line st ls)"
proof (induction ls arbitrary: seen st)
  case Nil
  then show ?case by simp
next
  case (Cons l ls)
  from Cons.IH [OF keys_ok_step [OF Cons.prems, of l] ] show ?case by simp
qed

lemma keys_ok_init: "keys_ok [] seg_init"
  by (simp add: keys_ok_def seg_init_def truthy_str_def)

lemma segment_lines_key_heading:
  assumes "p \<in> set (segment_lines ls)"
  shows "\<exists>l \<in> set ls. sectionMatch l = Some (fst p)"
proof -
  have "keys_ok ls (foldl segment_line seg_init ls)"
    using keys_ok_run [OF keys_ok_init, of ls] by simp
  from keys_ok_flush [OF this, of p] assms
  have "Some (fst p) \<in> sectionMatch ` set ls" by (simp add: segment_lines_def)
  then show ?thesis by (auto simp: image_iff)
qed

lemma last_section_split:
  assumes "\<exists>l \<in> set ls. sectionMatch l = Some ttl"
  shows "\<exists>pre h run rest. ls = pre @ [h] @ run @ rest \<and> sectionMatch h = Some ttl \<and>
           (\<forall>l \<in> set run. sectionMatch l = None) \<and>
           (rest = [] \<or> sectionMatch (hd rest) \<noteq> None) \<and>
           (\<forall>l \<in> set rest. sectionMatch l \<noteq> Some ttl)"
proof -
  from split_list_last_prop [OF assms]
  obtain pre h post where p: "ls = pre @ h # post" "sectionMatch h = Some ttl"
    "\<forall>l \<in> set post. sectionMatch l \<noteq> Some ttl"
    by blast
  define run where "run = takeWhile (\<lambda>l. sectionMatch l = None) post"
  define rest where "rest = dropWhile (\<lambda>l. sectionMatch l = None) post"
  have post: "post = run @ rest" by (simp add: run_def rest_def)
  have "\<forall>l \<in> set run. sectionMatch l = None"
    unfolding run_def by (auto dest: set_takeWhileD)
  moreover have "rest = [] \<or> sectionMatch (hd rest) \<noteq> None"
    unfolding rest_def using hd_dropWhile [of "\<lambda>l. sectionMatch l = None" post] by blast
  moreover from p(3) post have "\<forall>l \<in> set rest. sectionMatch l \<noteq> Some ttl" by simp
  moreover from p(1) post have "ls = pre @ [h] @ run @ rest" by simp
  ultimately show ?thesis using p(2) by blast
qed

text \<open>
  Claim C8. Every body stored in the returned mapping is the accumulated lines joined
  with newlines and then trimmed: for an entry of the result, the text has a heading
  line for its title with no later heading for that title, the accumulated lines are
  the lines from behind that heading up to the next heading line (or the end of the
  text), and the stored body is their join, trimmed. Hence no stored body begins or ends
  with white space, and blank lines right after a heading or at the end of a section do
  not show at the ends of the stored body.
\<close>

theorem stored_body_trimmed:
  assumes "(ttl, bdy) \<in> set (segmentPaper txt)"
  shows "(\<exists>pre h run rest.
            split [CHR 0x0A] txt = pre @ [h] @ run @ rest \<and> sectionMatch h = Some ttl \<and>
            (\<forall>l \<in> set run. sectionMatch l = None) \<and>
            (rest = [] \<or> sectionMatch (hd rest) \<noteq> None) \<and>
            (\<forall>l \<in> set rest. sectionMatch l \<noteq> Some ttl) \<and>
            bdy = trim (join run)) \<and>
         (bdy \<noteq> [] \<longrightarrow> \<not> isSpace (hd bdy) \<and> \<not> isSpace (last bdy))"
proof -
  let ?ls = "split [CHR 0x0A] txt"
  from assms have mem: "(ttl, bdy) \<in> set (segment_lines ?ls)"
    by (simp add: segmentPaper_def)
  from segment_lines_key_heading [OF mem]
  have "\<exists>l \<in> set ?ls. sectionMatch l = Some ttl" by simp
  from last_section_split [OF this]
  obtain pre h run rest where d: "?ls = pre @ [h] @ run @ rest" "sectionMatch h = Some ttl"
    "\<forall>l \<in> set run. sectionMatch l = None"
    "rest = [] \<or> sectionMatch (hd rest) \<noteq> None"
    "\<forall>l \<in> set rest. sectionMatch l \<noteq> Some ttl"
    by blast
  have "map_of (segment_lines ?ls) ttl = Some (trim (join run))"
    unfolding d(1) using d(2-5) by (rule segment_lines_last)
  moreover have "map_of (segment_lines ?ls) ttl = Some bdy"
    using segment_lines_distinct mem by (rule map_of_is_SomeI)
  ultimately have b: "bdy = trim (join run)" by simp
  with trim_ends [of "join run"]
  have "bdy \<noteq> [] \<longrightarrow> \<not> isSpace (hd bdy) \<and> \<not> isSpace (last bdy)" by simp
  with d b show ?thesis by blast
qed

theorem stored_body_trimmed_witness:
  "segmentPaper ''## Abstract\<newline>\<newline>  Foo one \<newline>second line\<newline>\<newline>## Results\<newline>Bar\<newline>'' =
     [(''Abstract'', ''Foo one \<newline>second line''), (''Results'', ''Bar'')] \<and>
   split [CHR 0x0A] ''## Abstract\<newline>\<newline>  Foo one \<newline>second line\<newline>\<newline>## Results\<newline>Bar\<newline>'' =
     [] @ [''## Abstract''] @ ['''', ''  Foo one '', ''second line'', ''''] @
     [''## Results'', ''Bar'', ''''] \<and>
   trim (join ['''', ''  Foo one '', ''second line'', '''']) = ''Foo one \<newline>second line'' \<and>
   (\<exists>pre h run rest.
      split [CHR 0x0A] ''## Abstract\<newline>\<newline>  Foo one \<newline>second line\<newline>\<newline>## Results\<newline>Bar\<newline>'' =
        pre @ [h] @ run @ rest \<and>
      sectionMatch h = Some ''Abstract'' \<and>
      (\<forall>l \<in> set run. sectionMatch l = None) \<and>
      (rest = [] \<or> sectionMatch (hd rest) \<noteq> None) \<and>
      (\<forall>l \<in> set rest. sectionMatch l \<noteq> Some ''Abstract'') \<and>
      ''Foo one \<newline>second line'' = trim (join run)) \<and>
   \<not> isSpace (hd ''Foo one \<newline>second line'') \<and> \<not> isSpace (last ''Foo one \<newline>second line'')"
proof -
  let ?txt = "''## Abstract\<newline>\<newline>  Foo one \<newline>second line\<newline>\<newline>## Results\<newline>Bar\<newline>''"
  have v: "segmentPaper ?txt = [(''Abstract'', ''Foo one \<newline>second line''), (''Results'', ''Bar'')]"
    by code_simp
  have s: "split [CHR 0x0A] ?txt =
     [] @ [''## Abstract''] @ ['''', ''  Foo one '', ''second line'', ''''] @
     [''## Results'', ''Bar'', '''']"
    by code_simp
  have j: "trim (join ['''', ''  Foo one '', ''second line'', '''']) = ''Foo one \<newline>second line''"
    by code_simp
  from v have "(''Abstract'', ''Foo one \<newline>second line'') \<in> set (segmentPaper ?txt)"
    by simp
  from stored_body_trimmed [OF this] v s j show ?thesis by simp
qed

section \<open>Properties of the citation extractor\<close>

text \<open>
  \<^const>\<open>indexOf\<close> finds the first occurrence: the separator starts at the position returned
  and at no position before it.
\<close>

lemma indexOf_first:
  "indexOf s t = Some i \<longleftrightarrow>
     i \<le> length s \<and> prefix t (drop i s) \<and> (\<forall>j<i. \<not> prefix t (drop j s))"
proof (induction s arbitrary: i)
  case Nil
  then show ?case by auto
next
  case (Cons c cs)
  show ?case
  proof (cases "prefix t (c # cs)")
    case True
    then have "indexOf (c # cs) t = Some 0" by simp
    moreover have "(i \<le> length (c # cs) \<and> prefix t (drop i (c # cs)) \<and>
        (\<forall>j<i. \<not> prefix t (drop j (c # cs)))) \<longleftrightarrow> i = 0"
      using True by (cases i) auto
    ultimately show ?thesis by auto
  next
    case False
    show ?thesis
    proof (cases i)
      case 0
      with False show ?thesis by auto
    next
      case (Suc k)
      have "(\<forall>j<Suc k. \<not> prefix t (drop j (c # cs))) \<longleftrightarrow> (\<forall>j<k. \<not> prefix t (drop j cs))"
        using False by (auto simp: less_Suc_eq_0_disj)
      with False Suc Cons.IH [of k] show ?thesis by auto
    qed
  qed
qed

lemma split_Cons:
  "sep \<noteq> [] \<Longrightarrow>
   split sep s =
     before_first sep s # (case after_first sep s of None \<Rightarrow> [] | Some r \<Rightarrow> split sep r)"
  by (subst split.simps) (simp add: before_first_def after_first_def split: option.split)

lemma at_split_0: "sep \<noteq> [] \<Longrightarrow> at (split sep s) 0 = Some (before_first sep s)"
  by (subst split_Cons) (simp_all add: at_def)

lemma at_split_1:
  "sep \<noteq> [] \<Longrightarrow>
   at (split sep s) (Suc 0) = map_option (before_first sep) (after_first sep s)"
proof (cases "after_first sep s")
  case None
  assume "sep \<noteq> []"
  with None show ?thesis by (subst split_Cons) (simp_all add: at_def)
next
  case (Some r)
  assume ne: "sep \<noteq> []"
  have "split sep s = before_first sep s # split sep r"
    using Some by (subst split_Cons [OF ne]) simp
  moreover have "at (split sep r) 0 = Some (before_first sep r)"
    using ne by (rule at_split_0)
  ultimately show ?thesis using Some by (auto simp: at_def split: if_splits)
qed

lemma find_map: "List.find P (map f xs) = map_option f (List.find (P \<circ> f) xs)"
  by (induction xs) simp_all

lemma year_at_Cons_Suc: "year_at (c # cs) (Suc i) = year_at cs i"
  by (simp add: year_at_def add.commute)

lemma year_at_Cons_0:
  "year_at (c # cs) 0 =
     (c = CHR ''('' \<and> 5 \<le> length cs \<and> list_all isDigit (take 4 cs) \<and> cs ! 4 = CHR '')'')"
  by (auto simp: year_at_def)

lemma yearMatch_find:
  "yearMatch s =
     map_option (\<lambda>i. take 4 (drop (Suc i) s)) (List.find (year_at s) [0..<length s])"
proof (induction s)
  case Nil
  then show ?case by simp
next
  case (Cons c cs)
  have "[0..<Suc (length cs)] = 0 # [Suc 0..<Suc (length cs)]"
    by (rule upt_conv_Cons) simp
  then have upt: "[0..<length (c # cs)] = 0 # map Suc [0..<length cs]"
    by (simp only: map_Suc_upt list.size(4) One_nat_def add_Suc_right add_0_right)
  show ?case
    unfolding upt
    by (simp add: find_map year_at_Cons_0 year_at_Cons_Suc Cons.IH option.map_comp comp_def)
qed

lemma year_first_year:
  "(case yearMatch s of Some y \<Rightarrow> y | None \<Rightarrow> []) = first_year s"
  by (simp add: yearMatch_find first_year_def split: option.split)

lemma title_amended:
  "(case at (split '').'' line) 1 of
      None \<Rightarrow> []
    | Some seg \<Rightarrow>
        (case at (split ''.'' seg) 0 of
           None \<Rightarrow> []
         | Some t \<Rightarrow> if truthy_str (trim t) then trim t else [])) = amended_title line"
  by (simp add: at_split_1 at_split_0 amended_title_def truthy_str_def split: option.split)

lemma extractCitation_fields:
  "extractCitation line =
     Inr \<lparr>citation_text = line, type = ''article'', year = first_year line,
          authors = trim (before_first ''('' line), title = amended_title line\<rparr>"
  unfolding extractCitation_def title_amended year_first_year
  by (simp add: at_split_0)

lemma map_result_Inr: "(\<And>x. f x = Inr (g x)) \<Longrightarrow> map_result f xs = Inr (map g xs)"
  by (induction xs) simp_all

text \<open>
  Claim C3, as amended. For every line the extracted record has \<open>year\<close> equal to the
  digits of the first parenthesised four-digit sequence (empty if there is none),
  \<open>authors\<close> equal to the trimmed text before the first opening parenthesis (the whole
  trimmed line when there is none), and \<open>title\<close> equal to the text after the first
  \<^verbatim>\<open>).\<close> up to the next \<^verbatim>\<open>).\<close> or \<^verbatim>\<open>.\<close>, whichever comes first, or up to the end of the
  line when neither follows, trimmed; the title is empty when the line has no \<^verbatim>\<open>).\<close>.
  The extractor returns these records for the non-blank lines, in order. The line
  \<^verbatim>\<open>Smith, J. (2020). Deep learning methods. Journal X.\<close> gives year 2020, authors
  \<^verbatim>\<open>Smith, J.\<close> and title \<^verbatim>\<open>Deep learning methods\<close>.
\<close>

theorem citation_fields:
  "extractCitation line =
     Inr \<lparr>citation_text = line, type = ''article'', year = first_year line,
          authors = trim (before_first ''('' line), title = amended_title line\<rparr> \<and>
   extractCitations txt =
     Inr (map (\<lambda>l. \<lparr>citation_text = l, type = ''article'', year = first_year l,
                      authors = trim (before_first ''('' l), title = amended_title l\<rparr>)
            (filter (\<lambda>l. trim l \<noteq> []) (split [CHR 0x0A] txt))) \<and>
   extractCitation ''Smith, J. (2020). Deep learning methods. Journal X.'' =
     Inr \<lparr>citation_text = ''Smith, J. (2020). Deep learning methods. Journal X.'',
          type = ''article'', year = ''2020'', authors = ''Smith, J.'',
          title = ''Deep learning methods''\<rparr>"
proof -
  have "extractCitation ''Smith, J. (2020). Deep learning methods. Journal X.'' =
     Inr \<lparr>citation_text = ''Smith, J. (2020). Deep learning methods. Journal X.'',
          type = ''article'', year = ''2020'', authors = ''Smith, J.'',
          title = ''Deep learning methods''\<rparr>"
    by code_simp
  moreover have "extractCitations txt =
     Inr (map (\<lambda>l. \<lparr>citation_text = l, type = ''article'', year = first_year l,
                      authors = trim (before_first ''('' l), title = amended_title l\<rparr>)
            (filter (\<lambda>l. trim l \<noteq> []) (split [CHR 0x0A] txt)))"
    unfolding extractCitations_def truthy_str_def
    by (rule map_result_Inr) (rule extractCitation_fields)
  ultimately show ?thesis using extractCitation_fields [of line] by simp
qed

text \<open>
  Claim C3 as first stated has the title empty whenever no \<^verbatim>\<open>.\<close> follows the first
  \<^verbatim>\<open>).\<close>. On the non-blank line \<^verbatim>\<open>Smith (2020). Deep learning\<close> the code returns the
  title \<^verbatim>\<open>Deep learning\<close> instead.
\<close>

theorem citation_title_counterexample:
  "trim ''Smith (2020). Deep learning'' \<noteq> [] \<and>
   extractCitation ''Smith (2020). Deep learning'' \<noteq>
     Inr \<lparr>citation_text = ''Smith (2020). Deep learning'', type = ''article'',
          year = first_year ''Smith (2020). Deep learning'',
          authors = trim (before_first ''('' ''Smith (2020). Deep learning''),
          title = spec_title ''Smith (2020). Deep learning''\<rparr> \<and>
   spec_title ''Smith (2020). Deep learning'' = [] \<and>
   extractCitation ''Smith (2020). Deep learning'' =
     Inr \<lparr>citation_text = ''Smith (2020). Deep learning'', type = ''article'',
          year = ''2020'', authors = ''Smith'', title = ''Deep learning''\<rparr>"
proof -
  have a: "trim ''Smith (2020). Deep learning'' \<noteq> []" by code_simp
  have b: "spec_title ''Smith (2020). Deep learning'' = []" by code_simp
  have c: "extractCitation ''Smith (2020). Deep learning'' =
     Inr \<lparr>citation_text = ''Smith (2020). Deep learning'', type = ''article'',
          year = ''2020'', authors = ''Smith'', title = ''Deep learning''\<rparr>"
    by code_simp
  from a b c show ?thesis by simp
qed

section \<open>Properties of the request handlers\<close>

lemma create_sent: "snd (create post messages) = [to_contents messages]"
  by (simp add: create_def Let_def)

lemma improve_writing_rejected:
  "\<not> truthy (or_js (prompt req) (body_text req)) \<or> \<not> truthy (aspect req) \<Longrightarrow>
   improve_writing post req =
     (\<lparr>status = 400, body = ErrorJson ''Content to improve and writing aspect are required''\<rparr>, [])"
  by (auto simp: improve_writing_def Let_def)

lemma improve_writing_accepted:
  "truthy (or_js (prompt req) (body_text req)) \<Longrightarrow> truthy (aspect req) \<Longrightarrow>
   improve_writing post req =
     (case create post (improve_messages (context_or_empty (body_context req))
                          (or_js (prompt req) (body_text req))) of
        (Inl e, sent) \<Rightarrow> (\<lparr>status = 500, body = ErrorJson ''Failed to improve writing''\<rparr>, sent)
      | (Inr improvedText, sent) \<Rightarrow>
          (\<lparr>status = 200, body = ImprovedJson improvedText [aspect req]\<rparr>, sent))"
  by (simp add: improve_writing_def Let_def)

text \<open>
  Claim C4. A request to \<^verbatim>\<open>/generate-paper\<close> whose body has no \<open>topic\<close> field is answered
  with status 400 and an error body, and nothing is posted to the provider. Whenever the
  handler does post to the provider, the topic was present.
\<close>

theorem generate_paper_requires_topic:
  "(topic req = Undefined \<longrightarrow>
      generate_paper post req = (\<lparr>status = 400, body = ErrorJson ''Topic is required''\<rparr>, [])) \<and>
   (snd (generate_paper post req) \<noteq> [] \<longrightarrow> topic req \<noteq> Undefined \<and> truthy (topic req))"
  by (auto simp: generate_paper_def)

theorem generate_paper_requires_topic_witness:
  "generate_paper (\<lambda>contents. Inr [ [''## Abstract\<newline>Foo''] ]) \<lparr>topic = Undefined\<rparr> =
     (\<lparr>status = 400, body = ErrorJson ''Topic is required''\<rparr>, []) \<and>
   snd (generate_paper (\<lambda>contents. Inr [ [''## Abstract\<newline>Foo''] ]) \<lparr>topic = Str ''AI''\<rparr>) \<noteq> [] \<and>
   topic \<lparr>topic = Str ''AI''\<rparr> \<noteq> Undefined"
proof -
  let ?post = "\<lambda>contents :: gemini_content list. Inr [ [''## Abstract\<newline>Foo''] ] :: js_error + string list list"
  have a: "topic \<lparr>topic = Undefined\<rparr> = Undefined" by simp
  have b: "snd (generate_paper ?post \<lparr>topic = Str ''AI''\<rparr>) \<noteq> []"
    by code_simp
  from generate_paper_requires_topic [of "\<lparr>topic = Undefined\<rparr>" ?post] a
    generate_paper_requires_topic [of "\<lparr>topic = Str ''AI''\<rparr>" ?post] b
  show ?thesis by blast
qed


text \<open>
  Claim C7. Every success response of \<^verbatim>\<open>/api/ai/improve-writing\<close> carries as \<open>changes\<close>
  the one-element list holding the request's \<open>aspect\<close>; with content and aspect given
  and an answer from the provider the response is that success response (the body
  \<^verbatim>\<open>{ text: "x", aspect: "clarity" }\<close> gives the changes \<^verbatim>\<open>["clarity"]\<close>). When \<open>prompt\<close> and
  \<open>text\<close> are both missing, or \<open>aspect\<close> is missing, the answer is status 400.
\<close>

theorem improve_writing_changes:
  "(status (fst (improve_writing post req)) = 200 \<longrightarrow>
      (\<exists>improved. body (fst (improve_writing post req)) = ImprovedJson improved [aspect req])) \<and>
   (truthy (or_js (prompt req) (body_text req)) \<and> truthy (aspect req) \<and>
    fst (create post (improve_messages (context_or_empty (body_context req))
                        (or_js (prompt req) (body_text req)))) = Inr improved \<longrightarrow>
      fst (improve_writing post req) =
        \<lparr>status = 200, body = ImprovedJson improved [aspect req]\<rparr>) \<and>
   ((prompt req = Undefined \<and> body_text req = Undefined) \<or> aspect req = Undefined \<longrightarrow>
      improve_writing post req =
        (\<lparr>status = 400,
          body = ErrorJson ''Content to improve and writing aspect are required''\<rparr>, []))"
proof (intro conjI impI)
  assume ok: "status (fst (improve_writing post req)) = 200"
  have acc: "truthy (or_js (prompt req) (body_text req)) \<and> truthy (aspect req)"
  proof (rule ccontr)
    assume "\<not> ?thesis"
    then have "status (fst (improve_writing post req)) = 400"
      by (subst improve_writing_rejected) auto
    with ok show False by simp
  qed
  with ok show "\<exists>improved. body (fst (improve_writing post req)) = ImprovedJson improved [aspect req]"
    by (auto simp: improve_writing_accepted split: prod.splits sum.splits)
next
  assume "truthy (or_js (prompt req) (body_text req)) \<and> truthy (aspect req) \<and>
    fst (create post (improve_messages (context_or_empty (body_context req))
                        (or_js (prompt req) (body_text req)))) = Inr improved"
  then show "fst (improve_writing post req) =
      \<lparr>status = 200, body = ImprovedJson improved [aspect req]\<rparr>"
    by (auto simp: improve_writing_accepted split: prod.splits sum.splits)
next
  assume "(prompt req = Undefined \<and> body_text req = Undefined) \<or> aspect req = Undefined"
  then have "\<not> truthy (or_js (prompt req) (body_text req)) \<or> \<not> truthy (aspect req)"
    by (auto simp: or_js_def)
  then show "improve_writing post req =
      (\<lparr>status = 400,
        body = ErrorJson ''Content to improve and writing aspect are required''\<rparr>, [])"
    by (rule improve_writing_rejected)
qed

theorem improve_writing_changes_witness:
  "fst (improve_writing (\<lambda>contents. Inr [ [''better x''] ])
          \<lparr>prompt = Undefined, body_text = Str ''x'', aspect = Str ''clarity'',
           body_context = None\<rparr>) =
     \<lparr>status = 200, body = ImprovedJson ''better x'' [Str ''clarity'']\<rparr> \<and>
   improve_writing (\<lambda>contents. Inr [ [''better x''] ])
      \<lparr>prompt = Undefined, body_text = Str ''x'', aspect = Undefined, body_context = None\<rparr> =
     (\<lparr>status = 400,
       body = ErrorJson ''Content to improve and writing aspect are required''\<rparr>, [])"
proof -
  let ?post = "\<lambda>contents :: gemini_content list. Inr [ [''better x''] ] :: js_error + string list list"
  let ?req = "\<lparr>prompt = Undefined, body_text = Str ''x'', aspect = Str ''clarity'',
               body_context = None\<rparr>"
  let ?bad = "\<lparr>prompt = Undefined, body_text = Str ''x'', aspect = Undefined,
               body_context = None\<rparr>"
  have a: "truthy (or_js (prompt ?req) (body_text ?req)) \<and> truthy (aspect ?req) \<and>
      fst (create ?post (improve_messages (context_or_empty (body_context ?req))
                           (or_js (prompt ?req) (body_text ?req)))) = Inr ''better x''"
    by (simp add: or_js_def create_def at_def)
  have b: "(prompt ?bad = Undefined \<and> body_text ?bad = Undefined) \<or> aspect ?bad = Undefined"
    by simp
  from improve_writing_changes [of ?post ?req "''better x''"] a
  have "fst (improve_writing ?post ?req) =
      \<lparr>status = 200, body = ImprovedJson ''better x'' [Str ''clarity'']\<rparr>"
    by simp
  moreover from improve_writing_changes [of ?post ?bad] b
  have "improve_writing ?post ?bad =
      (\<lparr>status = 400,
        body = ErrorJson ''Content to improve and writing aspect are required''\<rparr>, [])"
    by blast
  ultimately show ?thesis by simp
qed

text \<open>
  Claim C9. The required fields are tested for falsiness, so the empty string counts as
  missing: \<^verbatim>\<open>/generate-paper\<close> with the topic \<^verbatim>\<open>""\<close>, and \<^verbatim>\<open>/api/ai/improve-writing\<close> where
  the chosen content (\<^verbatim>\<open>prompt || text\<close>) or the aspect is \<^verbatim>\<open>""\<close>, are answered with
  status 400, exactly as the same request with the field absent.
\<close>

theorem empty_string_is_missing:
  "(topic req = Str [] \<longrightarrow>
      generate_paper post req = (\<lparr>status = 400, body = ErrorJson ''Topic is required''\<rparr>, []) \<and>
      generate_paper post req = generate_paper post (req\<lparr>topic := Undefined\<rparr>)) \<and>
   (or_js (prompt ireq) (body_text ireq) = Str [] \<or> aspect ireq = Str [] \<longrightarrow>
      improve_writing post ireq =
        (\<lparr>status = 400,
          body = ErrorJson ''Content to improve and writing aspect are required''\<rparr>, []) \<and>
      improve_writing post ireq =
        improve_writing post (ireq\<lparr>prompt := Undefined, body_text := Undefined\<rparr>) \<and>
      improve_writing post ireq = improve_writing post (ireq\<lparr>aspect := Undefined\<rparr>))"
proof (intro conjI impI)
  assume "topic req = Str []"
  then show "generate_paper post req =
      (\<lparr>status = 400, body = ErrorJson ''Topic is required''\<rparr>, [])"
    and "generate_paper post req = generate_paper post (req\<lparr>topic := Undefined\<rparr>)"
    by (simp_all add: generate_paper_def)
next
  assume h: "or_js (prompt ireq) (body_text ireq) = Str [] \<or> aspect ireq = Str []"
  then have "\<not> truthy (or_js (prompt ireq) (body_text ireq)) \<or> \<not> truthy (aspect ireq)"
    by auto
  then show r: "improve_writing post ireq =
      (\<lparr>status = 400,
        body = ErrorJson ''Content to improve and writing aspect are required''\<rparr>, [])"
    by (rule improve_writing_rejected)
  show "improve_writing post ireq =
      improve_writing post (ireq\<lparr>prompt := Undefined, body_text := Undefined\<rparr>)"
    unfolding r by (subst improve_writing_rejected) (simp_all add: or_js_def)
  show "improve_writing post ireq = improve_writing post (ireq\<lparr>aspect := Undefined\<rparr>)"
    unfolding r by (subst improve_writing_rejected) simp_all
qed

theorem empty_string_is_missing_witness:
  "generate_paper (\<lambda>contents. Inr [ [''better x''] ]) \<lparr>topic = Str []\<rparr> =
     (\<lparr>status = 400, body = ErrorJson ''Topic is required''\<rparr>, []) \<and>
   improve_writing (\<lambda>contents. Inr [ [''better x''] ])
      \<lparr>prompt = Str [], body_text = Str [], aspect = Str ''clarity'', body_context = None\<rparr> =
     (\<lparr>status = 400,
       body = ErrorJson ''Content to improve and writing aspect are required''\<rparr>, []) \<and>
   improve_writing (\<lambda>contents. Inr [ [''better x''] ])
      \<lparr>prompt = Str ''x'', body_text = Undefined, aspect = Str [], body_context = None\<rparr> =
     (\<lparr>status = 400,
       body = ErrorJson ''Content to improve and writing aspect are required''\<rparr>, [])"
proof -
  let ?post = "\<lambda>contents :: gemini_content list. Inr [ [''better x''] ] :: js_error + string list list"
  let ?c = "\<lparr>prompt = Str [], body_text = Str [], aspect = Str ''clarity'',
             body_context = None\<rparr>"
  let ?a = "\<lparr>prompt = Str ''x'', body_text = Undefined, aspect = Str [],
             body_context = None\<rparr>"
  have t: "topic \<lparr>topic = Str []\<rparr> = Str []" by simp
  have c: "or_js (prompt ?c) (body_text ?c) = Str [] \<or> aspect ?c = Str []"
    by (simp add: or_js_def)
  have a: "or_js (prompt ?a) (body_text ?a) = Str [] \<or> aspect ?a = Str []"
    by simp
  from empty_string_is_missing [of "\<lparr>topic = Str []\<rparr>" ?post ?c] t c
    empty_string_is_missing [of "\<lparr>topic = Str []\<rparr>" ?post ?a] a
  show ?thesis by blast
qed

text \<open>
  Claim C10. When \<open>prompt\<close> is a non-empty string, the content sent to the provider for
  improvement is the prompt, and the \<open>text\<close> field is ignored: the handler answers and
  posts the same whatever \<open>text\<close> holds.
\<close>

theorem prompt_precedence:
  assumes "prompt req = Str p" and "p \<noteq> []"
  shows "improve_writing post (req\<lparr>body_text := t\<rparr>) = improve_writing post req \<and>
         (truthy (aspect req) \<longrightarrow>
            snd (improve_writing post req) =
              [ [\<lparr>content_role = ''user'',
                 parts = [systemPrompt (context_or_empty (body_context req))]\<rparr>,
                \<lparr>content_role = ''user'',
                 parts = [''Improve this academic writing:'' @ [CHR 0x0A, CHR 0x0A] @ p]\<rparr>] ])"
proof -
  have o: "or_js (prompt req) x = Str p" for x
    using assms by (simp add: or_js_def)
  have "improve_writing post (req\<lparr>body_text := t\<rparr>) = improve_writing post req"
    by (simp add: improve_writing_def o split: prod.splits sum.splits)
  moreover have "snd (improve_writing post req) =
      [to_contents (improve_messages (context_or_empty (body_context req)) (Str p))]"
    if a: "truthy (aspect req)"
  proof -
    let ?m = "improve_messages (context_or_empty (body_context req)) (Str p)"
    obtain r sent where c: "create post ?m = (r, sent)" by (cases "create post ?m")
    with create_sent [of post ?m] have "sent = [to_contents ?m]" by simp
    moreover from assms(2) have "truthy (or_js (prompt req) (body_text req))"
      by (simp add: o)
    ultimately show ?thesis
      using a c by (cases r) (simp_all add: improve_writing_accepted o)
  qed
  ultimately show ?thesis by (simp add: to_contents_def improve_messages_def)
qed

theorem prompt_precedence_witness:
  "improve_writing (\<lambda>contents. Inr [ [''better''] ])
      \<lparr>prompt = Str ''P'', body_text = Str ''T'', aspect = Str ''clarity'', body_context = None\<rparr> =
   improve_writing (\<lambda>contents. Inr [ [''better''] ])
      \<lparr>prompt = Str ''P'', body_text = Undefined, aspect = Str ''clarity'',
       body_context = None\<rparr> \<and>
   snd (improve_writing (\<lambda>contents. Inr [ [''better''] ])
      \<lparr>prompt = Str ''P'', body_text = Str ''T'', aspect = Str ''clarity'',
       body_context = None\<rparr>) =
     [ [\<lparr>content_role = ''user'',
        parts = [''You are an expert academic writer working on a research paper.\<newline>\<newline>'']\<rparr>,
       \<lparr>content_role = ''user'', parts = [''Improve this academic writing:\<newline>\<newline>P'']\<rparr>] ]"
proof -
  let ?post = "\<lambda>contents :: gemini_content list. Inr [ [''better''] ] :: js_error + string list list"
  let ?req = "\<lparr>prompt = Str ''P'', body_text = Str ''T'', aspect = Str ''clarity'',
               body_context = None\<rparr>"
  have p: "prompt ?req = Str ''P''" and n: "''P'' \<noteq> []" by simp_all
  have s: "systemPrompt (context_or_empty None) =
      ''You are an expert academic writer working on a research paper.\<newline>\<newline>''"
    by (simp add: systemPrompt_def context_or_empty_def)
  from prompt_precedence [OF p n, of ?post Undefined] s show ?thesis by simp
qed

end
